theory Spec2Isabelle
  imports Main
begin

section \<open>Strings\<close>

text \<open>
  A Python \<open>str\<close> is modelled as a \<open>string\<close>; one \<open>char\<close> stands for one code point
  of the Python string, so \<open>length\<close> counts what Python's \<open>len\<close> and slicing count.
  The model covers the code points below 256.
\<close>

definition is_space :: "char \<Rightarrow> bool" where
  \<comment> \<open>The code points below 256 for which \<open>str.isspace\<close> holds; \<open>str.strip()\<close> removes them.\<close>
  "is_space c =
     (let n = (of_char c :: nat)
      in (9 \<le> n \<and> n \<le> 13) \<or> (28 \<le> n \<and> n \<le> 32) \<or> n = 133 \<or> n = 160)"

definition strip :: "string \<Rightarrow> string" where
  \<comment> \<open>\<open>str.strip()\<close>: whitespace removed at both ends.\<close>
  "strip s = dropWhile is_space (rev (dropWhile is_space (rev s)))"

definition lower_char :: "char \<Rightarrow> char" where
  "lower_char c =
     (let n = (of_char c :: nat)
      in if (65 \<le> n \<and> n \<le> 90) \<or> (192 \<le> n \<and> n \<le> 222 \<and> n \<noteq> 215)
         then char_of (n + 32) else c)"

definition lower :: "string \<Rightarrow> string" where
  \<comment> \<open>\<open>str.lower()\<close>.\<close>
  "lower s = map lower_char s"

definition str_of :: "string option \<Rightarrow> string" where
  \<comment> \<open>How an f-string renders a value that is a string or \<open>None\<close>.\<close>
  "str_of v = (case v of None \<Rightarrow> ''None'' | Some x \<Rightarrow> x)"

definition truthy :: "string option \<Rightarrow> bool" where
  \<comment> \<open>Python's truth value of a string or \<open>None\<close>: \<open>None\<close> and the empty string are false.\<close>
  "truthy v = (case v of None \<Rightarrow> False | Some x \<Rightarrow> x \<noteq> [])"

section \<open>Identity extraction and filename sanitization\<close>

definition is_id_char :: "char \<Rightarrow> bool" where
  \<comment> \<open>The character class \<open>[a-zA-Z0-9_-]\<close>.\<close>
  "is_id_char c =
     (let n = (of_char c :: nat)
      in (97 \<le> n \<and> n \<le> 122) \<or> (65 \<le> n \<and> n \<le> 90) \<or> (48 \<le> n \<and> n \<le> 57)
         \<or> c = CHR ''_'' \<or> c = CHR ''-'')"

definition id_at :: "string \<Rightarrow> string option" where
  \<comment> \<open>The pattern \<open>v=([a-zA-Z0-9_-]{11})\<close> matched at the start of \<open>s\<close>; the value is group 1.\<close>
  "id_at s =
     (let g = take 11 (drop 2 s)
      in if take 2 s = ''v='' \<and> length g = 11 \<and> list_all is_id_char g then Some g else None)"

fun extract_video_id :: "string \<Rightarrow> string option" where
  \<comment> \<open>\<open>re.search\<close>: the leftmost position where the pattern matches.\<close>
  "extract_video_id [] = None"
| "extract_video_id (c # cs) =
     (case id_at (c # cs) of Some g \<Rightarrow> Some g | None \<Rightarrow> extract_video_id cs)"

definition is_reserved :: "char \<Rightarrow> bool" where
  \<comment> \<open>The character class \<open>[<>:"/\\|?*]\<close>; 0x22 is the double quote, 0x5C the backslash.\<close>
  "is_reserved c =
     (c = CHR ''<'' \<or> c = CHR ''>'' \<or> c = CHR '':'' \<or> c = CHR 0x22 \<or> c = CHR ''/''
      \<or> c = CHR 0x5C \<or> c = CHR ''|'' \<or> c = CHR ''?'' \<or> c = CHR ''*'')"

definition sanitize_filename :: "string \<Rightarrow> string" where
  "sanitize_filename filename = take 200 (strip (filter (\<lambda>c. \<not> is_reserved c) filename))"

section \<open>The videos table\<close>

type_synonym timestamp = nat

record video =
  row_id :: nat
  video_url :: string
  video_id :: string
  title :: "string option"
  channel_url :: "string option"
  status :: string
  download_path :: "string option"
  custom_filename :: "string option"
  scraped_at :: timestamp
  downloaded_at :: "timestamp option"
  error_msg :: "string option"

text \<open>
  The table is the list of its rows in insertion order, with the AUTOINCREMENT sequence
  (the largest id handed out so far, which a DELETE does not reset).
\<close>

record db =
  rows :: "video list"
  seq :: nat

definition init_db :: db where
  "init_db = \<lparr>rows = [], seq = 0\<rparr>"

definition insert_video ::
  "timestamp \<Rightarrow> string \<Rightarrow> string option \<Rightarrow> string option \<Rightarrow> db \<Rightarrow> bool \<times> db" where
  \<comment> \<open>The INSERT statement of \<open>add_videos_to_db\<close> under the table's constraints. \<open>False\<close> is
      \<open>sqlite3.IntegrityError\<close>: \<open>video_id\<close> is NOT NULL and \<open>video_url\<close> is UNIQUE; the failed
      statement leaves the table as it was.\<close>
  "insert_video now url vid channel s =
     (case vid of
        None \<Rightarrow> (False, s)
      | Some v \<Rightarrow>
          if url \<in> set (map video_url (rows s)) then (False, s)
          else (True,
                s\<lparr>rows := rows s @
                     [\<lparr>row_id = seq s + 1, video_url = url, video_id = v, title = None,
                       channel_url = channel, status = ''pending'', download_path = None,
                       custom_filename = None, scraped_at = now, downloaded_at = None,
                       error_msg = None\<rparr>],
                  seq := seq s + 1\<rparr>))"

fun add_loop ::
  "(nat \<Rightarrow> timestamp) \<Rightarrow> nat \<Rightarrow> string list \<Rightarrow> string option \<Rightarrow> nat \<Rightarrow> db \<Rightarrow> nat \<times> db" where
  \<comment> \<open>The \<open>for url in video_urls\<close> loop; \<open>clk i\<close> is CURRENT_TIMESTAMP at the i-th statement.\<close>
  "add_loop clk i [] channel added s = (added, s)"
| "add_loop clk i (url # urls) channel added s =
     (let vid = extract_video_id url;
          (ok, s') = insert_video (clk i) url vid channel s
      in add_loop clk (Suc i) urls channel (if ok then added + 1 else added) s')"

definition add_videos_to_db ::
  "(nat \<Rightarrow> timestamp) \<Rightarrow> string list \<Rightarrow> string option \<Rightarrow> db \<Rightarrow> nat \<times> db" where
  "add_videos_to_db clk video_urls channel s = add_loop clk 0 video_urls channel 0 s"

definition get_pending_videos :: "string option \<Rightarrow> db \<Rightarrow> (nat \<times> string \<times> string) list" where
  "get_pending_videos channel s =
     map (\<lambda>r. (row_id r, video_url r, video_id r))
       (if truthy channel
        then filter (\<lambda>r. status r = ''pending'' \<and> channel_url r = channel) (rows s)
        else filter (\<lambda>r. status r = ''pending'') (rows s))"

definition update_video_status ::
  "timestamp \<Rightarrow> string \<Rightarrow> string \<Rightarrow> string option \<Rightarrow> string option \<Rightarrow> string option \<Rightarrow>
   string option \<Rightarrow> db \<Rightarrow> db" where
  \<comment> \<open>The two UPDATE statements; \<open>now\<close> is \<open>datetime.now()\<close>. Every row whose \<open>video_url\<close> is
      the given one is updated, whatever its status, and no row is a no-op.\<close>
  "update_video_status now url st dpath ttl custom_name err s =
     s\<lparr>rows :=
         map (\<lambda>r. if video_url r = url
                   then (if st = ''completed''
                         then r\<lparr>status := st, download_path := dpath, title := ttl,
                                custom_filename := custom_name, downloaded_at := Some now\<rparr>
                         else r\<lparr>status := st, error_msg := err\<rparr>)
                   else r)
           (rows s)\<rparr>"

section \<open>The download of one video\<close>

text \<open>
  What the two \<open>yt-dlp\<close> invocations of \<open>download_video\<close> did. The title query
  (\<open>subprocess.run\<close> with a timeout of 30 seconds) exits with a return code and its
  standard output, or raises \<open>subprocess.TimeoutExpired\<close>, or raises another exception with
  the given message. The download (\<open>subprocess.Popen\<close>, no timeout) exits with a return code
  after printing the given lines, or raises an exception with the given message.
\<close>

datatype info_outcome = InfoExit int string | InfoTimeout | InfoRaise string

datatype dl_outcome = DlExit int "string list" | DlRaise string

definition target_filename :: "string option \<Rightarrow> bool \<Rightarrow> string \<Rightarrow> string option \<Rightarrow> string" where
  \<comment> \<open>The \<open>if custom_name: ... elif use_title: ... else: ...\<close> of \<open>download_video\<close>; the last
      branch takes \<open>video_id\<close> as it is, and the f-string of the path renders it.\<close>
  "target_filename custom_name use_title ttl vid =
     (if truthy custom_name then sanitize_filename (the custom_name)
      else if use_title then sanitize_filename ttl
      else str_of vid)"

definition path_join :: "string \<Rightarrow> string \<Rightarrow> string" where
  \<comment> \<open>\<open>str(self.download_dir / name)\<close> for a download directory given in normal form (not
      empty, no trailing separator) and a relative \<open>name\<close>.\<close>
  "path_join dir name = dir @ ''/'' @ name"

definition last_lines :: "nat \<Rightarrow> 'a list \<Rightarrow> 'a list" where
  \<comment> \<open>The slice \<open>xs[-n:]\<close> for \<open>n > 0\<close>.\<close>
  "last_lines n xs = drop (length xs - n) xs"

definition download_video ::
  "string \<Rightarrow> info_outcome \<Rightarrow> dl_outcome \<Rightarrow> timestamp \<Rightarrow> string option \<Rightarrow> string \<Rightarrow>
   string option \<Rightarrow> bool \<Rightarrow> db \<Rightarrow> (bool \<times> string) \<times> db" where
  "download_video dir info dl now vid url custom_name use_title s =
     (case info of
        InfoTimeout \<Rightarrow>
          (let error = ''Download timeout''
           in ((False, error), update_video_status now url ''failed'' None None None (Some error) s))
      | InfoRaise e \<Rightarrow>
          (let error = take 500 e
           in ((False, error), update_video_status now url ''failed'' None None None (Some error) s))
      | InfoExit returncode stdout \<Rightarrow>
          (let ttl = (if returncode = 0 then strip stdout else ''video_'' @ str_of vid);
               filename = target_filename custom_name use_title ttl vid;
               output_path = path_join dir (filename @ ''.mp4'')
           in case dl of
                DlRaise e \<Rightarrow>
                  (let error = take 500 e
                   in ((False, error),
                       update_video_status now url ''failed'' None None None (Some error) s))
              | DlExit rc output_lines \<Rightarrow>
                  if rc = 0
                  then ((True, output_path),
                        update_video_status now url ''completed'' (Some output_path) (Some ttl)
                          custom_name None s)
                  else (let error = take 500 (concat (last_lines 10 output_lines))
                        in ((False, error),
                            update_video_status now url ''failed'' None None None (Some error) s))))"

section \<open>The batch run\<close>

text \<open>
  The console is the list of the lines the operator types; \<open>input()\<close> takes the first one and
  raises \<open>EOFError\<close> when there is none. The i-th job of a batch (counted from 1, as
  \<open>enumerate(videos, 1)\<close> does) meets the outcomes \<open>env i\<close>.
\<close>

datatype batch_end = Finished | NoPending | Aborted | EOFError

type_synonym call = "string option \<times> string \<times> string option \<times> bool"

definition prompt_item ::
  "bool \<Rightarrow> bool \<Rightarrow> string list \<Rightarrow> (string option \<times> bool \<times> string list) option" where
  \<comment> \<open>The body of the loop before the download: \<open>custom_name\<close> starts as \<open>None\<close> in every
      iteration, \<open>use_title\<close> is the variable of the enclosing function. \<open>None\<close> is EOFError.\<close>
  "prompt_item interactive use_title console =
     (if interactive
      then (case console of
              [] \<Rightarrow> None
            | line # rest \<Rightarrow>
                (let choice = lower line
                 in if choice = ''n'' then Some (None, False, rest)
                    else if choice = ''custom''
                    then (case rest of
                            [] \<Rightarrow> None
                          | name # rest' \<Rightarrow> Some (Some name, use_title, rest'))
                    else Some (None, use_title, rest)))
      else Some (None, use_title, console))"

fun process_videos ::
  "string \<Rightarrow> (nat \<Rightarrow> info_outcome \<times> dl_outcome \<times> timestamp) \<Rightarrow> bool \<Rightarrow> nat \<Rightarrow>
   (nat \<times> string \<times> string) list \<Rightarrow> bool \<Rightarrow> string list \<Rightarrow> db \<Rightarrow> batch_end \<times> call list \<times> db" where
  \<comment> \<open>The \<open>for idx, (db_id, url, vid_id) in enumerate(videos, 1)\<close> loop. The second component
      lists the arguments of the calls of \<open>download_video\<close>, in order.\<close>
  "process_videos dir env interactive idx [] use_title console s = (Finished, [], s)"
| "process_videos dir env interactive idx ((db_id, url, vid_id) # videos) use_title console s =
     (case prompt_item interactive use_title console of
        None \<Rightarrow> (EOFError, [], s)
      | Some (custom_name, use_title', console') \<Rightarrow>
          (let (info, dl, now) = env idx;
               (res, s') = download_video dir info dl now (Some vid_id) url custom_name use_title' s;
               (e, calls, s'') =
                 process_videos dir env interactive (Suc idx) videos use_title' console' s'
           in (e, (Some vid_id, url, custom_name, use_title') # calls, s'')))"

definition download_all_pending ::
  "string \<Rightarrow> (nat \<Rightarrow> info_outcome \<times> dl_outcome \<times> timestamp) \<Rightarrow> bool \<Rightarrow> bool \<Rightarrow> string option \<Rightarrow>
   bool \<Rightarrow> string list \<Rightarrow> db \<Rightarrow> batch_end \<times> call list \<times> db" where
  "download_all_pending dir env use_title interactive channel skip_confirmation console s =
     (let videos = get_pending_videos channel s
      in if videos = [] then (NoPending, [], s)
         else if \<not> skip_confirmation
         then (case console of
                 [] \<Rightarrow> (EOFError, [], s)
               | line # rest \<Rightarrow>
                   if lower line \<noteq> ''y'' then (Aborted, [], s)
                   else process_videos dir env interactive 1 videos use_title rest s)
         else process_videos dir env interactive 1 videos use_title console s)"

section \<open>Deletion\<close>

datatype delete_end = Deleted nat | NoneFound | DeletionAborted | DeleteEOF

definition matching :: "string \<Rightarrow> video \<Rightarrow> bool" where
  \<comment> \<open>The rows the SELECT COUNT and the DELETE of \<open>delete_videos\<close> address.\<close>
  "matching st r = (if st = ''all'' then True else status r = st)"

definition delete_videos :: "string \<Rightarrow> bool \<Rightarrow> string list \<Rightarrow> db \<Rightarrow> delete_end \<times> db" where
  \<comment> \<open>\<open>Deleted count\<close> is the message "Successfully deleted count videos".\<close>
  "delete_videos st skip_confirmation console s =
     (let count = length (filter (matching st) (rows s));
          s' = s\<lparr>rows := filter (\<lambda>r. \<not> matching st r) (rows s)\<rparr>
      in if count = 0 then (NoneFound, s)
         else if \<not> skip_confirmation
         then (case console of
                 [] \<Rightarrow> (DeleteEOF, s)
               | line # rest \<Rightarrow>
                   if lower line \<noteq> ''y'' then (DeletionAborted, s) else (Deleted count, s'))
         else (Deleted count, s'))"

section \<open>Example data\<close>

text \<open>
  Three videos discovered on a channel, the fifteen lines a failing download prints, and the
  table after the first video was downloaded and the second one failed.
\<close>

definition demo_urls :: "string list" where
  "demo_urls = [''https://www.youtube.com/watch?v=AAAAAAAAAAA'',
                ''https://www.youtube.com/watch?v=BBBBBBBBBBB'',
                ''https://www.youtube.com/watch?v=CCCCCCCCCCC'']"

definition demo_db :: db where
  "demo_db = snd (add_videos_to_db (\<lambda>i. 100 + i) demo_urls (Some ''https://www.youtube.com/@chan'') init_db)"

definition demo_lines :: "string list" where
  "demo_lines = map (\<lambda>i. ''ERROR '' @ [char_of (97 + i)] @ [CHR 0x0A]) [0..<15]"

definition demo_mixed :: db where
  "demo_mixed =
     snd (download_video ''downloads'' (InfoExit 0 ''Title B'') (DlExit 1 demo_lines) 300
            (Some ''BBBBBBBBBBB'') ''https://www.youtube.com/watch?v=BBBBBBBBBBB'' None True
       (snd (download_video ''downloads'' (InfoExit 0 ''Title A'') (DlExit 0 []) 200
               (Some ''AAAAAAAAAAA'') ''https://www.youtube.com/watch?v=AAAAAAAAAAA'' None True
               demo_db)))"

text \<open>
  The outcomes of a batch in which every title query and every download succeeds.
\<close>

definition demo_env :: "nat \<Rightarrow> info_outcome \<times> dl_outcome \<times> timestamp" where
  "demo_env i = (InfoExit 0 ''Title'', DlExit 0 [], 200 + i)"

section \<open>The invariant of the status\<close>

text \<open>
  The three biconditionals that the specification states between the status of a row and the
  presence of its download path and of its error message, as a predicate on rows.
\<close>

definition row_ok :: "video \<Rightarrow> bool" where
  "row_ok r =
     ((status r = ''completed'' \<longleftrightarrow> download_path r \<noteq> None \<and> error_msg r = None) \<and>
      (status r = ''failed'' \<longleftrightarrow> error_msg r \<noteq> None \<and> download_path r = None) \<and>
      (status r = ''pending'' \<longleftrightarrow> download_path r = None \<and> error_msg r = None))"

definition db_ok :: "db \<Rightarrow> bool" where
  "db_ok s = list_all row_ok (rows s)"

section \<open>Sanitized filenames\<close>

lemma set_strip: "set (strip s) \<subseteq> set s"
  unfolding strip_def
  by (metis set_dropWhileD set_rev subsetI)

lemma strip_no_leading: "strip s \<noteq> [] \<Longrightarrow> \<not> is_space (hd (strip s))"
  unfolding strip_def by (metis hd_dropWhile)

lemma dropWhile_keeps_last:
  "xs \<noteq> [] \<Longrightarrow> \<not> P (last xs) \<Longrightarrow> dropWhile P xs \<noteq> [] \<and> last (dropWhile P xs) = last xs"
  by (induction xs) (auto split: if_splits)

lemma strip_no_trailing: "strip s \<noteq> [] \<Longrightarrow> \<not> is_space (last (strip s))"
proof -
  assume ne: "strip s \<noteq> []"
  define t where "t = rev (dropWhile is_space (rev s))"
  have st: "strip s = dropWhile is_space t" by (simp add: strip_def t_def)
  with ne have tne: "t \<noteq> []" by auto
  then have "dropWhile is_space (rev s) \<noteq> []" by (simp add: t_def)
  then have "\<not> is_space (hd (dropWhile is_space (rev s)))" by (rule hd_dropWhile)
  moreover have "last t = hd (dropWhile is_space (rev s))"
    using tne by (simp add: t_def last_rev)
  ultimately have "\<not> is_space (last t)" by simp
  with tne have "last (dropWhile is_space t) = last t" by (simp add: dropWhile_keeps_last)
  with \<open>\<not> is_space (last t)\<close> st show ?thesis by simp
qed

lemma strip_all_space: "\<forall>c\<in>set s. is_space c \<Longrightarrow> strip s = []"
proof -
  assume a: "\<forall>c\<in>set s. is_space c"
  then have "dropWhile is_space (rev s) = []" by (metis dropWhile_eq_Nil_conv set_rev)
  then show ?thesis unfolding strip_def by (simp only: rev.simps dropWhile.simps)
qed

lemma sanitize_reserved_space:
  "\<forall>c\<in>set name. is_reserved c \<or> is_space c \<Longrightarrow> sanitize_filename name = []"
  unfolding sanitize_filename_def
  by (auto intro!: strip_all_space)

lemma sanitize_length: "length (sanitize_filename n) \<le> 200"
  by (simp add: sanitize_filename_def)

lemma sanitize_no_reserved: "c \<in> set (sanitize_filename n) \<Longrightarrow> \<not> is_reserved c"
proof -
  assume "c \<in> set (sanitize_filename n)"
  then have "c \<in> set (strip (filter (\<lambda>c. \<not> is_reserved c) n))"
    unfolding sanitize_filename_def by (rule in_set_takeD)
  then have "c \<in> set (filter (\<lambda>c. \<not> is_reserved c) n)" using set_strip by blast
  then show ?thesis by simp
qed

lemma sanitize_no_leading:
  "sanitize_filename n \<noteq> [] \<Longrightarrow> \<not> is_space (hd (sanitize_filename n))"
  unfolding sanitize_filename_def
  using strip_no_leading[of "filter (\<lambda>c. \<not> is_reserved c) n"]
  by (auto simp: hd_take)

lemma sanitize_no_trailing:
  "sanitize_filename n \<noteq> [] \<Longrightarrow> length (strip (filter (\<lambda>c. \<not> is_reserved c) n)) \<le> 200
   \<Longrightarrow> \<not> is_space (last (sanitize_filename n))"
  unfolding sanitize_filename_def
  using strip_no_trailing[of "filter (\<lambda>c. \<not> is_reserved c) n"]
  by auto

lemma id_char_plain: "is_id_char c \<Longrightarrow> \<not> is_reserved c \<and> \<not> is_space c"
  by (auto simp: is_id_char_def is_reserved_def is_space_def Let_def)

lemma id_at_shape: "id_at s = Some g \<Longrightarrow> length g = 11 \<and> list_all is_id_char g"
  by (auto simp: id_at_def Let_def split: if_splits)

lemma extract_video_id_shape:
  "extract_video_id url = Some v \<Longrightarrow> length v = 11 \<and> list_all is_id_char v"
proof (induction url)
  case Nil
  then show ?case by simp
next
  case (Cons c cs)
  show ?case
  proof (cases "id_at (c # cs)")
    case None
    with Cons show ?thesis by simp
  next
    case (Some g)
    with Cons.prems have "g = v" by simp
    with Some show ?thesis using id_at_shape by blast
  qed
qed

lemma strip_plain: "\<forall>c\<in>set s. \<not> is_space c \<Longrightarrow> strip s = s"
proof -
  assume a: "\<forall>c\<in>set s. \<not> is_space c"
  then have "dropWhile is_space (rev s) = rev s" by (cases "rev s") (auto simp: rev_eq_Cons_iff)
  moreover from a have "dropWhile is_space s = s" by (cases s) auto
  ultimately show ?thesis by (simp add: strip_def)
qed

text \<open>
  C9 (as amended). For a content id extracted from a URL, the filename derived in any of the
  three branches (custom name, title, content id) contains no reserved character, is at most
  200 characters long and does not start with whitespace; it does not end with whitespace
  either when the chosen name, after the reserved characters are removed and it is trimmed,
  is at most 200 characters long. The cap is applied after the trim.
\<close>

theorem target_filename_safe:
  assumes "extract_video_id url = Some v"
  shows "let f = target_filename custom_name use_title ttl (Some v);
             n = (if truthy custom_name then the custom_name else if use_title then ttl else v)
         in (\<forall>c\<in>set f. \<not> is_reserved c) \<and> length f \<le> 200 \<and>
            (f \<noteq> [] \<longrightarrow> \<not> is_space (hd f) \<and>
               (length (strip (filter (\<lambda>c. \<not> is_reserved c) n)) \<le> 200 \<longrightarrow> \<not> is_space (last f)))"
proof -
  from assms have v: "length v = 11" "\<forall>c\<in>set v. is_id_char c"
    using extract_video_id_shape by (auto simp: list_all_iff)
  then have plain: "\<forall>c\<in>set v. \<not> is_reserved c" "\<forall>c\<in>set v. \<not> is_space c"
    using id_char_plain by blast+
  from v have vne: "v \<noteq> []" by auto
  show ?thesis
  proof (cases "truthy custom_name \<or> use_title")
    case True
    then show ?thesis
      using sanitize_length sanitize_no_reserved sanitize_no_leading sanitize_no_trailing
      by (auto simp: target_filename_def Let_def)
  next
    case False
    then show ?thesis
      using v plain vne by (auto simp: target_filename_def Let_def str_of_def)
  qed
qed

text \<open>
  The hypothesis of C9 (as amended) at the spec's example title.
\<close>

theorem target_filename_safe_witness:
  "extract_video_id ''https://www.youtube.com/watch?v=dQw4w9WgXcQ'' = Some ''dQw4w9WgXcQ'' \<and>
   target_filename None True ''My/Video:Title?'' (Some ''dQw4w9WgXcQ'') = ''MyVideoTitle'' \<and>
   (let f = target_filename None True ''My/Video:Title?'' (Some ''dQw4w9WgXcQ'');
        n = (if truthy None then the None else if True then ''My/Video:Title?'' else ''dQw4w9WgXcQ'')
    in (\<forall>c\<in>set f. \<not> is_reserved c) \<and> length f \<le> 200 \<and>
       (f \<noteq> [] \<longrightarrow> \<not> is_space (hd f) \<and>
          (length (strip (filter (\<lambda>c. \<not> is_reserved c) n)) \<le> 200 \<longrightarrow> \<not> is_space (last f))))"
proof -
  have h: "extract_video_id ''https://www.youtube.com/watch?v=dQw4w9WgXcQ'' = Some ''dQw4w9WgXcQ''"
    by code_simp
  have t: "target_filename None True ''My/Video:Title?'' (Some ''dQw4w9WgXcQ'') = ''MyVideoTitle''"
    by code_simp
  from h t target_filename_safe [OF h, of None True "''My/Video:Title?''"]
  show ?thesis by blast
qed

text \<open>
  C9 as stated fails: a name of 199 letters, a space and one more letter is cut after the
  space, so the derived filename ends with whitespace.
\<close>

theorem sanitize_trailing_space_counterexample:
  "sanitize_filename (replicate 199 CHR ''a'' @ '' b'') = replicate 199 CHR ''a'' @ '' '' \<and>
   is_space (last (sanitize_filename (replicate 199 CHR ''a'' @ '' b'')))"
  by code_simp

text \<open>
  C10. A name made of reserved characters and whitespace only is sanitized to the empty
  string; chosen as the custom name (not empty) or as the fetched title, it gives the output
  path of the download directory joined with ".mp4", whatever the job, and nothing replaces
  the empty filename.
\<close>

theorem reserved_only_name_empty:
  assumes "\<forall>c\<in>set name. is_reserved c \<or> is_space c"
  shows "sanitize_filename name = [] \<and>
         (name \<noteq> [] \<longrightarrow>
            fst (download_video dir (InfoExit rc out) (DlExit 0 ls) now vid url (Some name) use_title s)
              = (True, path_join dir ''.mp4'')) \<and>
         (\<not> truthy custom_name \<longrightarrow>
            fst (download_video dir (InfoExit 0 name) (DlExit 0 ls) now vid url custom_name True s)
              = (True, path_join dir ''.mp4''))"
proof -
  have e: "sanitize_filename name = []" using assms by (rule sanitize_reserved_space)
  have "\<forall>c\<in>set (strip name). is_reserved c \<or> is_space c" using assms set_strip by blast
  then have t: "sanitize_filename (strip name) = []" by (rule sanitize_reserved_space)
  show ?thesis
    using e t by (simp add: download_video_def target_filename_def truthy_def Let_def)
qed

text \<open>
  The hypothesis of C10 at the custom name \<open>?? :*\<close>.
\<close>

theorem reserved_only_name_empty_witness:
  "list_all (\<lambda>c. is_reserved c \<or> is_space c) ''?? :*'' \<and> sanitize_filename ''?? :*'' = [] \<and>
   fst (download_video ''downloads'' (InfoExit 0 ''T'') (DlExit 0 []) 7 (Some ''dQw4w9WgXcQ'')
          ''https://www.youtube.com/watch?v=dQw4w9WgXcQ'' (Some ''?? :*'') True init_db)
     = (True, ''downloads/.mp4'')"
proof -
  have h: "\<forall>c\<in>set ''?? :*''. is_reserved c \<or> is_space c"
    by (simp add: is_reserved_def is_space_def)
  have l: "list_all (\<lambda>c. is_reserved c \<or> is_space c) ''?? :*''"
    using h by (simp only: list_all_iff)
  show ?thesis
    using l reserved_only_name_empty [OF h, of "''downloads''" 0 "''T''" "[]" 7
        "Some ''dQw4w9WgXcQ''" "''https://www.youtube.com/watch?v=dQw4w9WgXcQ''" True init_db None]
    by (simp add: path_join_def)
qed

section \<open>Insertion\<close>

lemma insert_video_cases:
  "insert_video now url vid channel s = (ok, s') \<Longrightarrow>
     (ok \<longleftrightarrow> vid \<noteq> None \<and> url \<notin> set (map video_url (rows s))) \<and>
     (\<not> ok \<longrightarrow> s' = s) \<and>
     (ok \<longrightarrow> rows s' = rows s @
        [\<lparr>row_id = seq s + 1, video_url = url, video_id = the vid, title = None,
          channel_url = channel, status = ''pending'', download_path = None,
          custom_filename = None, scraped_at = now, downloaded_at = None, error_msg = None\<rparr>]
        \<and> seq s' = seq s + 1)"
  by (auto simp: insert_video_def split: option.splits if_splits)

text \<open>
  C4 (as amended). Inserting one URL stores a pending row, and reports one added video, if
  and only if an identifier can be extracted from the URL and no row has the same
  \<open>video_url\<close>; otherwise (a duplicate URL, or no identifier, which the NOT NULL
  constraint on \<open>video_id\<close> rejects) the table is unchanged and nothing is reported as
  added. No case raises.
\<close>

theorem add_single_url:
  assumes "add_videos_to_db clk [url] channel s = (added, s')"
  shows "(added = 1 \<longleftrightarrow> extract_video_id url \<noteq> None \<and> url \<notin> set (map video_url (rows s))) \<and>
         (added = 0 \<longleftrightarrow> extract_video_id url = None \<or> url \<in> set (map video_url (rows s))) \<and>
         (added = 0 \<longrightarrow> s' = s) \<and>
         (added = 1 \<longrightarrow>
            (\<exists>r. rows s' = rows s @ [r] \<and> video_url r = url \<and> status r = ''pending'' \<and>
                 Some (video_id r) = extract_video_id url \<and> channel_url r = channel \<and>
                 download_path r = None \<and> error_msg r = None))"
proof -
  obtain ok t where i: "insert_video (clk 0) url (extract_video_id url) channel s = (ok, t)"
    by (cases "insert_video (clk 0) url (extract_video_id url) channel s")
  with assms have a: "added = (if ok then 1 else 0)" and t: "s' = t"
    by (auto simp: add_videos_to_db_def Let_def)
  from insert_video_cases[OF i] a t show ?thesis by auto
qed

text \<open>
  C4 (as amended) at a URL with an identifier, on the empty table.
\<close>

theorem add_single_url_witness:
  "fst (add_videos_to_db (\<lambda>i. 100 + i) [''https://www.youtube.com/watch?v=AAAAAAAAAAA'']
          (Some ''Single Video'') init_db) = 1 \<and>
   (\<exists>r. rows (snd (add_videos_to_db (\<lambda>i. 100 + i)
                  [''https://www.youtube.com/watch?v=AAAAAAAAAAA''] (Some ''Single Video'') init_db))
          = rows init_db @ [r] \<and>
        video_url r = ''https://www.youtube.com/watch?v=AAAAAAAAAAA'' \<and> status r = ''pending'' \<and>
        Some (video_id r) = extract_video_id ''https://www.youtube.com/watch?v=AAAAAAAAAAA'' \<and>
        channel_url r = Some ''Single Video'' \<and> download_path r = None \<and> error_msg r = None)"
proof -
  have e: "add_videos_to_db (\<lambda>i. 100 + i) [''https://www.youtube.com/watch?v=AAAAAAAAAAA'']
             (Some ''Single Video'') init_db
           = (1, snd (add_videos_to_db (\<lambda>i. 100 + i)
                  [''https://www.youtube.com/watch?v=AAAAAAAAAAA''] (Some ''Single Video'') init_db))"
    by code_simp
  have f: "fst (add_videos_to_db (\<lambda>i. 100 + i) [''https://www.youtube.com/watch?v=AAAAAAAAAAA'']
          (Some ''Single Video'') init_db) = 1"
    by code_simp
  from add_single_url[OF e] f show ?thesis by blast
qed

text \<open>
  C4 as stated fails: a URL without an identifier is not stored, and is reported as not
  added although no row has this URL.
\<close>

theorem insert_without_id_counterexample:
  "extract_video_id ''https://example.com/clip'' = None \<and>
   ''https://example.com/clip'' \<notin> set (map video_url (rows init_db)) \<and>
   add_videos_to_db (\<lambda>i. 100 + i) [''https://example.com/clip''] (Some ''Single Video'') init_db
     = (0, init_db)"
  by code_simp

lemma add_loop_mono:
  "add_loop clk i urls channel a s = (a', s') \<Longrightarrow>
     set (map video_url (rows s)) \<subseteq> set (map video_url (rows s'))"
proof (induction urls arbitrary: i a s)
  case Nil
  then show ?case by simp
next
  case (Cons u urls)
  obtain ok t where i: "insert_video (clk i) u (extract_video_id u) channel s = (ok, t)"
    by (cases "insert_video (clk i) u (extract_video_id u) channel s")
  with Cons.prems have r: "add_loop clk (Suc i) urls channel (if ok then a + 1 else a) t = (a', s')"
    by (simp add: Let_def)
  from insert_video_cases[OF i] have "set (map video_url (rows s)) \<subseteq> set (map video_url (rows t))"
    by (cases ok) auto
  with Cons.IH[OF r] show ?case by blast
qed

lemma add_loop_covers:
  "add_loop clk i urls channel a s = (a', s') \<Longrightarrow>
     \<forall>u\<in>set urls. extract_video_id u = None \<or> u \<in> set (map video_url (rows s'))"
proof (induction urls arbitrary: i a s)
  case Nil
  then show ?case by simp
next
  case (Cons u urls)
  obtain ok t where i: "insert_video (clk i) u (extract_video_id u) channel s = (ok, t)"
    by (cases "insert_video (clk i) u (extract_video_id u) channel s")
  with Cons.prems have r: "add_loop clk (Suc i) urls channel (if ok then a + 1 else a) t = (a', s')"
    by (simp add: Let_def)
  have "extract_video_id u = None \<or> u \<in> set (map video_url (rows t))"
    using insert_video_cases[OF i] by (cases ok) auto
  with add_loop_mono[OF r] have "extract_video_id u = None \<or> u \<in> set (map video_url (rows s'))"
    by blast
  with Cons.IH[OF r] show ?case by simp
qed

lemma add_loop_noop:
  "\<forall>u\<in>set urls. extract_video_id u = None \<or> u \<in> set (map video_url (rows s)) \<Longrightarrow>
     add_loop clk i urls channel a s = (a, s)"
proof (induction urls arbitrary: i)
  case Nil
  then show ?case by simp
next
  case (Cons u urls)
  then have "insert_video (clk i) u (extract_video_id u) channel s = (False, s)"
    by (auto simp: insert_video_def split: option.splits)
  with Cons show ?case by (simp add: Let_def)
qed

lemma add_loop_distinct:
  "add_loop clk i urls channel a s = (a', s') \<Longrightarrow> distinct (map video_url (rows s)) \<Longrightarrow>
     distinct (map video_url (rows s'))"
proof (induction urls arbitrary: i a s)
  case Nil
  then show ?case by simp
next
  case (Cons u urls)
  obtain ok t where i: "insert_video (clk i) u (extract_video_id u) channel s = (ok, t)"
    by (cases "insert_video (clk i) u (extract_video_id u) channel s")
  with Cons.prems have r: "add_loop clk (Suc i) urls channel (if ok then a + 1 else a) t = (a', s')"
    by (simp add: Let_def)
  have "distinct (map video_url (rows t))"
    using insert_video_cases[OF i] Cons.prems(2) by (cases ok) auto
  with Cons.IH[OF r] show ?case .
qed

text \<open>
  C7. Inserting a list of URLs a second time (at any later time, under any channel) adds
  nothing and leaves the table as the first insertion left it; and the URLs of the rows stay
  pairwise distinct.
\<close>

theorem add_videos_twice:
  "snd (add_videos_to_db clk2 urls ch2 (snd (add_videos_to_db clk1 urls ch1 s)))
     = snd (add_videos_to_db clk1 urls ch1 s) \<and>
   fst (add_videos_to_db clk2 urls ch2 (snd (add_videos_to_db clk1 urls ch1 s))) = 0 \<and>
   (distinct (map video_url (rows s)) \<longrightarrow>
      distinct (map video_url (rows (snd (add_videos_to_db clk1 urls ch1 s)))))"
proof -
  obtain a t where f: "add_loop clk1 0 urls ch1 0 s = (a, t)"
    by (cases "add_loop clk1 0 urls ch1 0 s")
  from add_loop_covers[OF f] have "add_loop clk2 0 urls ch2 0 t = (0, t)"
    by (rule add_loop_noop)
  with f add_loop_distinct[OF f] show ?thesis
    by (simp add: add_videos_to_db_def)
qed

text \<open>
  C7 on the empty table, with a list that holds one URL twice and one without identifier.
\<close>

theorem add_videos_twice_witness:
  "distinct (map video_url (rows init_db)) \<and>
   distinct (map video_url (rows (snd (add_videos_to_db (\<lambda>i. 100 + i)
      [''https://www.youtube.com/watch?v=AAAAAAAAAAA'', ''https://example.com/clip'',
       ''https://www.youtube.com/watch?v=AAAAAAAAAAA''] (Some ''PL1'') init_db)))) \<and>
   fst (add_videos_to_db (\<lambda>i. 500 + i)
      [''https://www.youtube.com/watch?v=AAAAAAAAAAA'', ''https://example.com/clip'',
       ''https://www.youtube.com/watch?v=AAAAAAAAAAA''] (Some ''PL2'')
      (snd (add_videos_to_db (\<lambda>i. 100 + i)
      [''https://www.youtube.com/watch?v=AAAAAAAAAAA'', ''https://example.com/clip'',
       ''https://www.youtube.com/watch?v=AAAAAAAAAAA''] (Some ''PL1'') init_db))) = 0"
proof -
  have h: "distinct (map video_url (rows init_db))" by (simp add: init_db_def)
  from h add_videos_twice[of "\<lambda>i. 500 + i"
      "[''https://www.youtube.com/watch?v=AAAAAAAAAAA'', ''https://example.com/clip'',
        ''https://www.youtube.com/watch?v=AAAAAAAAAAA'']" "Some ''PL2''" "\<lambda>i. 100 + i"
      "Some ''PL1''" init_db]
  show ?thesis by blast
qed

section \<open>Deletion of rows\<close>

text \<open>
  C8. When \<open>delete_videos\<close> deletes, the rows that remain are exactly the rows whose
  status is not the filter (none for "all"), unchanged and in their order, and the reported
  count is the number of rows removed; in every other case the table is as it was. It
  deletes if and only if some row matches and the operator confirmed (or confirmation was
  skipped).
\<close>

theorem delete_videos_exact:
  assumes "delete_videos st skip_confirmation console s = (e, s')"
  shows "(e = Deleted n \<longrightarrow>
            rows s' = (if st = ''all'' then [] else filter (\<lambda>r. status r \<noteq> st) (rows s)) \<and>
            seq s' = seq s \<and> n = length (rows s) - length (rows s') \<and> 0 < n) \<and>
         ((\<forall>k. e \<noteq> Deleted k) \<longrightarrow> s' = s) \<and>
         ((\<exists>k. e = Deleted k) \<longleftrightarrow>
            (\<exists>r\<in>set (rows s). st = ''all'' \<or> status r = st) \<and>
            (skip_confirmation \<or> (console \<noteq> [] \<and> lower (hd console) = ''y'')))"
proof -
  let ?m = "filter (matching st) (rows s)"
  let ?k = "filter (\<lambda>r. \<not> matching st r) (rows s)"
  have k: "?k = (if st = ''all'' then [] else filter (\<lambda>r. status r \<noteq> st) (rows s))"
    by (simp add: matching_def)
  have len: "length ?m = length (rows s) - length ?k"
    using sum_length_filter_compl[of "matching st" "rows s"] by simp
  have ex: "(length ?m = 0) = (\<not> (\<exists>r\<in>set (rows s). st = ''all'' \<or> status r = st))"
    by (auto simp: matching_def filter_empty_conv)
  show ?thesis
    using assms k len ex
    unfolding delete_videos_def Let_def
    by (auto split: if_splits list.splits)
qed

lemma demo_mixed_status: "map status (rows demo_mixed) = [''completed'', ''failed'', ''pending'']"
  by code_simp

text \<open>
  C8 with the filter "failed" on a table with one completed, one failed and one pending
  row.
\<close>

theorem delete_videos_exact_witness:
  "fst (delete_videos ''failed'' True [] demo_mixed) = Deleted 1 \<and>
   rows (snd (delete_videos ''failed'' True [] demo_mixed))
     = filter (\<lambda>r. status r \<noteq> ''failed'') (rows demo_mixed) \<and>
   map status (rows (snd (delete_videos ''failed'' True [] demo_mixed))) = [''completed'', ''pending''] \<and>
   length (rows demo_mixed) - length (rows (snd (delete_videos ''failed'' True [] demo_mixed))) = 1"
proof -
  have e: "delete_videos ''failed'' True [] demo_mixed
             = (Deleted 1, snd (delete_videos ''failed'' True [] demo_mixed))"
    by code_simp
  have f: "fst (delete_videos ''failed'' True [] demo_mixed) = Deleted 1"
    by code_simp
  have m: "map status (rows (snd (delete_videos ''failed'' True [] demo_mixed)))
             = [''completed'', ''pending'']"
    by code_simp
  have c: "(''failed'' = ''all'') = False" by simp
  from delete_videos_exact[OF e, of 1]
  have "rows (snd (delete_videos ''failed'' True [] demo_mixed))
          = (if ''failed'' = ''all'' then [] else filter (\<lambda>r. status r \<noteq> ''failed'') (rows demo_mixed)) \<and>
        1 = length (rows demo_mixed) - length (rows (snd (delete_videos ''failed'' True [] demo_mixed)))"
    by blast
  then have "rows (snd (delete_videos ''failed'' True [] demo_mixed))
          = filter (\<lambda>r. status r \<noteq> ''failed'') (rows demo_mixed) \<and>
        length (rows demo_mixed) - length (rows (snd (delete_videos ''failed'' True [] demo_mixed))) = 1"
    unfolding c if_False by (metis (no_types))
  with f m show ?thesis by blast
qed

section \<open>Outcomes of a download\<close>

lemma update_video_status_urls:
  "map video_url (rows (update_video_status now url st d t c e s)) = map video_url (rows s)"
  by (simp add: update_video_status_def comp_def)

lemma update_failed_eq:
  "rows (update_video_status now url ''failed'' d t c e s) =
     map (\<lambda>r. if video_url r = url then r\<lparr>status := ''failed'', error_msg := e\<rparr> else r) (rows s)"
  by (simp add: update_video_status_def)

lemma update_completed_eq:
  "rows (update_video_status now url ''completed'' d t c e s) =
     map (\<lambda>r. if video_url r = url
               then r\<lparr>status := ''completed'', download_path := d, title := t,
                      custom_filename := c, downloaded_at := Some now\<rparr>
               else r) (rows s)"
  by (simp add: update_video_status_def)

lemma update_video_status_failed_rows:
  assumes a: "r \<in> set (rows (update_video_status now url ''failed'' d t c e s))"
    and u: "video_url r = url"
  shows "status r = ''failed'' \<and> error_msg r = e"
proof -
  from a obtain r0 where
    r0: "r = (if video_url r0 = url then r0\<lparr>status := ''failed'', error_msg := e\<rparr> else r0)"
    unfolding update_failed_eq by (auto simp only: set_map image_iff)
  show ?thesis
  proof (cases "video_url r0 = url")
    case True
    with r0 show ?thesis by simp
  next
    case False
    with r0 u show ?thesis by simp
  qed
qed

lemma last_lines_suffix:
  "length (last_lines n xs) = min (length xs) n \<and> xs = take (length xs - n) xs @ last_lines n xs"
  by (auto simp: last_lines_def)

lemma download_video_failed:
  assumes "\<not> fst (fst (download_video dir info dl now vid url custom_name use_title s))"
  shows "\<exists>e. length e \<le> 500 \<and>
           download_video dir info dl now vid url custom_name use_title s
             = ((False, e), update_video_status now url ''failed'' None None None (Some e) s)"
proof (cases info)
  case InfoTimeout
  then show ?thesis
    by (intro exI[of _ "''Download timeout''"]) (simp add: download_video_def Let_def)
next
  case (InfoRaise m)
  then show ?thesis
    by (intro exI[of _ "take 500 m"]) (simp add: download_video_def Let_def)
next
  case (InfoExit rc0 out)
  show ?thesis
  proof (cases dl)
    case (DlRaise m)
    with InfoExit show ?thesis
      by (intro exI[of _ "take 500 m"]) (simp add: download_video_def Let_def)
  next
    case (DlExit rc ls)
    show ?thesis
    proof (cases "rc = 0")
      case True
      with InfoExit DlExit assms show ?thesis by (simp add: download_video_def Let_def)
    next
      case False
      with InfoExit DlExit show ?thesis
        by (intro exI[of _ "take 500 (concat (last_lines 10 ls))"])
           (simp add: download_video_def Let_def)
    qed
  qed
qed

text \<open>
  C5. Whenever \<open>download_video\<close> reports a failure, the error detail is at most 500
  characters long and every row of the video's URL is failed with this detail. When the
  download exits with a non-zero code, the detail is the concatenation of the last
  min(N, 10) of its N output lines, cut to 500 characters.
\<close>

theorem download_failure_detail:
  "(download_video dir info dl now vid url custom_name use_title s = ((False, e), s') \<longrightarrow>
      length e \<le> 500 \<and>
      s' = update_video_status now url ''failed'' None None None (Some e) s \<and>
      map video_url (rows s') = map video_url (rows s) \<and>
      (\<forall>r\<in>set (rows s'). video_url r = url \<longrightarrow> status r = ''failed'' \<and> error_msg r = Some e)) \<and>
   (rc \<noteq> 0 \<longrightarrow>
      download_video dir (InfoExit rc0 out) (DlExit rc ls) now vid url custom_name use_title s
        = ((False, take 500 (concat (last_lines 10 ls))),
           update_video_status now url ''failed'' None None None
             (Some (take 500 (concat (last_lines 10 ls)))) s) \<and>
      length (last_lines 10 ls) = min (length ls) 10 \<and>
      ls = take (length ls - 10) ls @ last_lines 10 ls)"
proof (intro conjI impI)
  assume r: "download_video dir info dl now vid url custom_name use_title s = ((False, e), s')"
  then have "\<not> fst (fst (download_video dir info dl now vid url custom_name use_title s))"
    by simp
  from download_video_failed[OF this] r
  have e: "length e \<le> 500"
    and s': "s' = update_video_status now url ''failed'' None None None (Some e) s"
    by auto
  show "length e \<le> 500" by (rule e)
  show "s' = update_video_status now url ''failed'' None None None (Some e) s" by (rule s')
  show "map video_url (rows s') = map video_url (rows s)"
    unfolding s' by (rule update_video_status_urls)
  show "\<forall>r\<in>set (rows s'). video_url r = url \<longrightarrow> status r = ''failed'' \<and> error_msg r = Some e"
    unfolding s' using update_video_status_failed_rows by blast
next
  assume "rc \<noteq> 0"
  then show "download_video dir (InfoExit rc0 out) (DlExit rc ls) now vid url custom_name use_title s
        = ((False, take 500 (concat (last_lines 10 ls))),
           update_video_status now url ''failed'' None None None
             (Some (take 500 (concat (last_lines 10 ls)))) s)"
    by (simp add: download_video_def Let_def)
next
  show "length (last_lines 10 ls) = min (length ls) 10"
    using last_lines_suffix by blast
next
  show "ls = take (length ls - 10) ls @ last_lines 10 ls"
    using last_lines_suffix by blast
qed

lemma demo_db_rows: "map status (rows demo_db) = [''pending'', ''pending'', ''pending'']"
  by code_simp

text \<open>
  C5 in the spec's scenario: exit code 1 after fifteen lines.
\<close>

theorem download_failure_detail_witness:
  "download_video ''downloads'' (InfoExit 0 ''Title A'') (DlExit 1 demo_lines) 200
      (Some ''AAAAAAAAAAA'') ''https://www.youtube.com/watch?v=AAAAAAAAAAA'' None True demo_db
     = ((False, concat (drop 5 demo_lines)),
        update_video_status 200 ''https://www.youtube.com/watch?v=AAAAAAAAAAA'' ''failed''
          None None None (Some (concat (drop 5 demo_lines))) demo_db) \<and>
   length demo_lines = 15 \<and> length (concat (drop 5 demo_lines)) \<le> 500"
proof -
  have n: "(1::int) \<noteq> 0" by simp
  have l: "length demo_lines = 15" by code_simp
  have t: "take 500 (concat (last_lines 10 demo_lines)) = concat (drop 5 demo_lines)" by code_simp
  have b: "length (concat (drop 5 demo_lines)) \<le> 500" by code_simp
  from download_failure_detail[of "''downloads''" "InfoExit 0 ''Title A''" "DlExit 1 demo_lines" 200
      "Some ''AAAAAAAAAAA''" "''https://www.youtube.com/watch?v=AAAAAAAAAAA''" None True demo_db
      "concat (drop 5 demo_lines)" _ 1 0 "''Title A''" demo_lines] n
  have "download_video ''downloads'' (InfoExit 0 ''Title A'') (DlExit 1 demo_lines) 200
      (Some ''AAAAAAAAAAA'') ''https://www.youtube.com/watch?v=AAAAAAAAAAA'' None True demo_db
     = ((False, take 500 (concat (last_lines 10 demo_lines))),
        update_video_status 200 ''https://www.youtube.com/watch?v=AAAAAAAAAAA'' ''failed''
          None None None (Some (take 500 (concat (last_lines 10 demo_lines)))) demo_db)"
    by blast
  with l b show ?thesis unfolding t by blast
qed

text \<open>
  C3 (as amended). When the title query exits with a non-zero code, the title is
  \<open>video_<content id>\<close> and the download proceeds: a download that exits with code 0
  completes the job under this title, and the outcome does not depend on the query's code or
  output. When the title query times out, the job is marked failed with the detail
  "Download timeout" and no download is started.
\<close>

theorem metadata_failure_outcomes:
  "(rc \<noteq> 0 \<longrightarrow>
      (let ttl = ''video_'' @ str_of vid;
           p = path_join dir (target_filename custom_name use_title ttl vid @ ''.mp4'')
       in download_video dir (InfoExit rc out) (DlExit 0 ls) now vid url custom_name use_title s
            = ((True, p),
               update_video_status now url ''completed'' (Some p) (Some ttl) custom_name None s)) \<and>
      download_video dir (InfoExit rc out) dl now vid url custom_name use_title s
        = download_video dir (InfoExit 1 []) dl now vid url custom_name use_title s) \<and>
   download_video dir InfoTimeout dl now vid url custom_name use_title s
     = ((False, ''Download timeout''),
        update_video_status now url ''failed'' None None None (Some ''Download timeout'') s)"
  by (simp add: download_video_def Let_def)

text \<open>
  C3 (as amended) at a title query that exits with code 1.
\<close>

theorem metadata_failure_outcomes_witness:
  "download_video ''downloads'' (InfoExit 1 ''ERROR'') (DlExit 0 []) 200 (Some ''AAAAAAAAAAA'')
      ''https://www.youtube.com/watch?v=AAAAAAAAAAA'' None True demo_db
     = ((True, ''downloads/video_AAAAAAAAAAA.mp4''),
        update_video_status 200 ''https://www.youtube.com/watch?v=AAAAAAAAAAA'' ''completed''
          (Some ''downloads/video_AAAAAAAAAAA.mp4'') (Some ''video_AAAAAAAAAAA'') None None demo_db)"
proof -
  have n: "(1::int) \<noteq> 0" by simp
  have t: "''video_'' @ str_of (Some ''AAAAAAAAAAA'') = ''video_AAAAAAAAAAA''"
    by (simp add: str_of_def)
  have p: "path_join ''downloads'' (target_filename None True ''video_AAAAAAAAAAA''
             (Some ''AAAAAAAAAAA'') @ ''.mp4'') = ''downloads/video_AAAAAAAAAAA.mp4''"
    by code_simp
  from metadata_failure_outcomes[of 1 "Some ''AAAAAAAAAAA''" "''downloads''" None True
      "''ERROR''" "[]" 200 "''https://www.youtube.com/watch?v=AAAAAAAAAAA''" demo_db] n
  show ?thesis unfolding Let_def t p by blast
qed

text \<open>
  C3 as stated fails: the title query times out, and the job is failed although the
  download itself would have succeeded.
\<close>

theorem metadata_timeout_counterexample:
  "fst (download_video ''downloads'' InfoTimeout (DlExit 0 []) 200 (Some ''AAAAAAAAAAA'')
          ''https://www.youtube.com/watch?v=AAAAAAAAAAA'' None True demo_db)
     = (False, ''Download timeout'') \<and>
   map status (rows (snd (download_video ''downloads'' InfoTimeout (DlExit 0 []) 200
          (Some ''AAAAAAAAAAA'') ''https://www.youtube.com/watch?v=AAAAAAAAAAA'' None True demo_db)))
     = [''failed'', ''pending'', ''pending'']"
  by code_simp

section \<open>Status and fields of a row\<close>

lemma row_ok_new:
  "row_ok \<lparr>row_id = i, video_url = url, video_id = v, title = None, channel_url = channel,
           status = ''pending'', download_path = None, custom_filename = None, scraped_at = now,
           downloaded_at = None, error_msg = None\<rparr>"
  by (simp add: row_ok_def)

lemma row_ok_completed:
  "row_ok r \<Longrightarrow> status r = ''pending'' \<Longrightarrow>
     row_ok (r\<lparr>status := ''completed'', download_path := Some p, title := t,
               custom_filename := c, downloaded_at := Some now\<rparr>)"
  by (simp add: row_ok_def)

lemma row_ok_failed:
  "row_ok r \<Longrightarrow> status r = ''pending'' \<Longrightarrow> row_ok (r\<lparr>status := ''failed'', error_msg := Some e\<rparr>)"
  by (simp add: row_ok_def)

lemma db_ok_insert:
  "db_ok s \<Longrightarrow> insert_video now url vid channel s = (ok, s') \<Longrightarrow> db_ok s'"
proof -
  assume ok: "db_ok s" and i: "insert_video now url vid channel s = (ok, s')"
  show ?thesis
  proof (cases ok)
    case False
    with insert_video_cases[OF i] ok show ?thesis by simp
  next
    case True
    with insert_video_cases[OF i] have
      "rows s' = rows s @
        [\<lparr>row_id = seq s + 1, video_url = url, video_id = the vid, title = None,
          channel_url = channel, status = ''pending'', download_path = None,
          custom_filename = None, scraped_at = now, downloaded_at = None, error_msg = None\<rparr>]"
      by simp
    with ok row_ok_new show ?thesis by (simp add: db_ok_def)
  qed
qed

lemma db_ok_add_loop:
  "db_ok s \<Longrightarrow> add_loop clk i urls channel a s = (a', s') \<Longrightarrow> db_ok s'"
proof (induction urls arbitrary: i a s)
  case Nil
  then show ?case by simp
next
  case (Cons u urls)
  obtain ok t where i: "insert_video (clk i) u (extract_video_id u) channel s = (ok, t)"
    by (cases "insert_video (clk i) u (extract_video_id u) channel s")
  with Cons.prems have r: "add_loop clk (Suc i) urls channel (if ok then a + 1 else a) t = (a', s')"
    by (simp add: Let_def)
  from db_ok_insert[OF Cons.prems(1) i] have "db_ok t" .
  from Cons.IH[OF this r] show ?case .
qed

lemma db_ok_delete: "db_ok s \<Longrightarrow> db_ok (snd (delete_videos st skip_confirmation console s))"
  by (simp add: delete_videos_def Let_def db_ok_def list_all_iff split: list.splits)

lemma db_ok_completed:
  assumes ok: "db_ok s"
    and p: "\<forall>r\<in>set (rows s). video_url r = url \<longrightarrow> status r = ''pending''"
  shows "db_ok (update_video_status now url ''completed'' (Some p) t c e s)"
proof -
  have "row_ok (if video_url r = url
                then r\<lparr>status := ''completed'', download_path := Some p, title := t,
                       custom_filename := c, downloaded_at := Some now\<rparr>
                else r)" if r: "r \<in> set (rows s)" for r
  proof (cases "video_url r = url")
    case True
    with p r have "status r = ''pending''" by blast
    moreover from ok r have "row_ok r" by (simp add: db_ok_def list_all_iff)
    ultimately show ?thesis using True row_ok_completed by simp
  next
    case False
    with ok r show ?thesis by (simp add: db_ok_def list_all_iff)
  qed
  then show ?thesis
    unfolding db_ok_def update_completed_eq list_all_iff set_map by blast
qed

lemma db_ok_failed:
  assumes ok: "db_ok s"
    and p: "\<forall>r\<in>set (rows s). video_url r = url \<longrightarrow> status r = ''pending''"
  shows "db_ok (update_video_status now url ''failed'' d t c (Some m) s)"
proof -
  have "row_ok (if video_url r = url then r\<lparr>status := ''failed'', error_msg := Some m\<rparr> else r)"
    if r: "r \<in> set (rows s)" for r
  proof (cases "video_url r = url")
    case True
    with p r have "status r = ''pending''" by blast
    moreover from ok r have "row_ok r" by (simp add: db_ok_def list_all_iff)
    ultimately show ?thesis using True row_ok_failed by simp
  next
    case False
    with ok r show ?thesis by (simp add: db_ok_def list_all_iff)
  qed
  then show ?thesis
    unfolding db_ok_def update_failed_eq list_all_iff set_map by blast
qed

lemma download_video_updates:
  "(\<exists>p t. snd (download_video dir info dl now vid url custom_name use_title s)
            = update_video_status now url ''completed'' (Some p) (Some t) custom_name None s) \<or>
   (\<exists>m. snd (download_video dir info dl now vid url custom_name use_title s)
            = update_video_status now url ''failed'' None None None (Some m) s)"
proof (cases "fst (fst (download_video dir info dl now vid url custom_name use_title s))")
  case False
  from download_video_failed[OF this] show ?thesis by (metis snd_conv)
next
  case True
  then obtain rc0 out ls where io: "info = InfoExit rc0 out" "dl = DlExit 0 ls"
    by (cases info; cases dl)
       (auto simp: download_video_def Let_def split: if_splits)
  have "snd (download_video dir (InfoExit rc0 out) (DlExit 0 ls) now vid url custom_name use_title s)
          = update_video_status now url ''completed''
              (Some (path_join dir (target_filename custom_name use_title
                 (if rc0 = 0 then strip out else ''video_'' @ str_of vid) vid @ ''.mp4'')))
              (Some (if rc0 = 0 then strip out else ''video_'' @ str_of vid)) custom_name None s"
    by (simp add: download_video_def Let_def)
  then show ?thesis unfolding io by blast
qed

text \<open>
  C1 (as amended). On a table whose rows satisfy the three biconditionals, insertion and
  deletion keep them; marking completed and marking failed keep them when every row of the
  URL is pending, which is a job's first transition, and so does a download of such a URL.
  Marking completed leaves every error message as it was, and marking failed leaves every
  download path as it was.
\<close>

theorem biconditionals_first_transition:
  assumes "db_ok s"
  shows "db_ok (snd (add_videos_to_db clk urls channel s)) \<and>
         db_ok (snd (delete_videos st skip_confirmation console s)) \<and>
         ((\<forall>r\<in>set (rows s). video_url r = url \<longrightarrow> status r = ''pending'') \<longrightarrow>
            db_ok (update_video_status now url ''completed'' (Some p) t c e s) \<and>
            db_ok (update_video_status now url ''failed'' d t c (Some m) s) \<and>
            db_ok (snd (download_video dir info dl now vid url custom_name use_title s))) \<and>
         map error_msg (rows (update_video_status now url ''completed'' d t c e s))
           = map error_msg (rows s) \<and>
         map download_path (rows (update_video_status now url ''failed'' d t c e s))
           = map download_path (rows s)"
proof (intro conjI impI)
  show "db_ok (snd (add_videos_to_db clk urls channel s))"
    using db_ok_add_loop[OF assms, of clk 0 urls channel 0]
    by (cases "add_loop clk 0 urls channel 0 s") (simp add: add_videos_to_db_def)
  show "db_ok (snd (delete_videos st skip_confirmation console s))"
    using assms by (rule db_ok_delete)
  show "map error_msg (rows (update_video_status now url ''completed'' d t c e s))
          = map error_msg (rows s)"
    unfolding update_completed_eq by (simp add: comp_def)
  show "map download_path (rows (update_video_status now url ''failed'' d t c e s))
          = map download_path (rows s)"
    unfolding update_failed_eq by (simp add: comp_def)
next
  assume p: "\<forall>r\<in>set (rows s). video_url r = url \<longrightarrow> status r = ''pending''"
  show "db_ok (update_video_status now url ''completed'' (Some p) t c e s)"
    using assms p by (rule db_ok_completed)
  show "db_ok (update_video_status now url ''failed'' d t c (Some m) s)"
    using assms p by (rule db_ok_failed)
  show "db_ok (snd (download_video dir info dl now vid url custom_name use_title s))"
    using download_video_updates[of dir info dl now vid url custom_name use_title s]
      db_ok_completed[OF assms p] db_ok_failed[OF assms p]
    by metis
qed

lemma demo_db_ok: "db_ok demo_db"
  by code_simp

lemma demo_db_pending: "list_all (\<lambda>r. status r = ''pending'') (rows demo_db)"
  by code_simp

text \<open>
  C1 (as amended) on the table of three pending videos.
\<close>

theorem biconditionals_first_transition_witness:
  "db_ok demo_db \<and>
   db_ok (snd (download_video ''downloads'' (InfoExit 0 ''Title A'') (DlExit 1 demo_lines) 200
                 (Some ''AAAAAAAAAAA'') ''https://www.youtube.com/watch?v=AAAAAAAAAAA'' None True
                 demo_db)) \<and>
   db_ok (snd (delete_videos ''pending'' True [] demo_db))"
proof -
  have p: "\<forall>r\<in>set (rows demo_db).
             video_url r = ''https://www.youtube.com/watch?v=AAAAAAAAAAA'' \<longrightarrow> status r = ''pending''"
    using demo_db_pending unfolding list_all_iff by blast
  from biconditionals_first_transition[OF demo_db_ok, of _ _ _ "''pending''" True "[]"
      "''https://www.youtube.com/watch?v=AAAAAAAAAAA''" 200 _ _ _ _ _ _ "''downloads''"
      "InfoExit 0 ''Title A''" "DlExit 1 demo_lines" "Some ''AAAAAAAAAAA''" None True] p demo_db_ok
  show ?thesis by blast
qed

text \<open>
  C1 as stated fails: a video is downloaded, and a later download of the same URL fails; the
  row is then failed and still has its download path.
\<close>

theorem second_transition_counterexample:
  "db_ok (snd (download_video ''downloads'' (InfoExit 0 ''Title A'') (DlExit 0 []) 200
                 (Some ''AAAAAAAAAAA'') ''https://www.youtube.com/watch?v=AAAAAAAAAAA'' None True
                 demo_db)) \<and>
   \<not> db_ok (snd (download_video ''downloads'' (InfoExit 0 ''Title A'') (DlExit 1 demo_lines) 300
                 (Some ''AAAAAAAAAAA'') ''https://www.youtube.com/watch?v=AAAAAAAAAAA'' None True
            (snd (download_video ''downloads'' (InfoExit 0 ''Title A'') (DlExit 0 []) 200
                 (Some ''AAAAAAAAAAA'') ''https://www.youtube.com/watch?v=AAAAAAAAAAA'' None True
                 demo_db)))) \<and>
   map (\<lambda>r. (status r, download_path r))
     (rows (snd (download_video ''downloads'' (InfoExit 0 ''Title A'') (DlExit 1 demo_lines) 300
                 (Some ''AAAAAAAAAAA'') ''https://www.youtube.com/watch?v=AAAAAAAAAAA'' None True
            (snd (download_video ''downloads'' (InfoExit 0 ''Title A'') (DlExit 0 []) 200
                 (Some ''AAAAAAAAAAA'') ''https://www.youtube.com/watch?v=AAAAAAAAAAA'' None True
                 demo_db)))))
     = [(''failed'', Some ''downloads/Title A.mp4''), (''pending'', None), (''pending'', None)]"
  by code_simp

section \<open>The batch run and terminal states\<close>

lemma update_video_status_other:
  "i < length (rows s) \<Longrightarrow> video_url (rows s ! i) \<noteq> url \<Longrightarrow>
     rows (update_video_status now url st d t c e s) ! i = rows s ! i"
  by (simp add: update_video_status_def)

lemma download_video_is_update:
  "\<exists>st d t c e. snd (download_video dir info dl now vid url custom_name use_title s)
      = update_video_status now url st d t c e s"
  using download_video_updates[of dir info dl now vid url custom_name use_title s] by metis

lemma download_video_frame:
  "map video_url (rows (snd (download_video dir info dl now vid url custom_name use_title s)))
     = map video_url (rows s) \<and>
   (\<forall>i<length (rows s). video_url (rows s ! i) \<noteq> url \<longrightarrow>
      rows (snd (download_video dir info dl now vid url custom_name use_title s)) ! i = rows s ! i)"
proof -
  obtain st d t c e where
    u: "snd (download_video dir info dl now vid url custom_name use_title s)
          = update_video_status now url st d t c e s"
    using download_video_is_update by blast
  show ?thesis unfolding u
    using update_video_status_urls update_video_status_other by blast
qed

lemma process_videos_frame:
  "process_videos dir env interactive idx videos use_title console s = (e, calls, s') \<Longrightarrow>
     map video_url (rows s') = map video_url (rows s) \<and>
     (\<forall>i<length (rows s). video_url (rows s ! i) \<notin> set (map (fst \<circ> snd) videos) \<longrightarrow>
        rows s' ! i = rows s ! i)"
proof (induction videos arbitrary: idx use_title console s e calls)
  case Nil
  then show ?case by simp
next
  case (Cons v videos)
  obtain db_id url vid_id where v: "v = (db_id, url, vid_id)" by (cases v)
  show ?case
  proof (cases "prompt_item interactive use_title console")
    case None
    with Cons.prems v have "s' = s" by simp
    then show ?thesis by simp
  next
    case (Some a)
    obtain custom_name ut con where a: "a = (custom_name, ut, con)" by (cases a)
    obtain info dl now where ev: "env idx = (info, dl, now)" by (cases "env idx")
    define s1 where "s1 = snd (download_video dir info dl now (Some vid_id) url custom_name ut s)"
    obtain e1 calls1 s2 where
      r: "process_videos dir env interactive (Suc idx) videos ut con s1 = (e1, calls1, s2)"
      by (cases "process_videos dir env interactive (Suc idx) videos ut con s1")
    have "s' = s2"
      using Cons.prems v Some a ev r
      by (simp add: s1_def split_beta)
    with r have r': "process_videos dir env interactive (Suc idx) videos ut con s1 = (e1, calls1, s')"
      by simp
    note ih = Cons.IH[OF r']
    have f: "map video_url (rows s1) = map video_url (rows s)"
      and g: "\<forall>i<length (rows s). video_url (rows s ! i) \<noteq> url \<longrightarrow> rows s1 ! i = rows s ! i"
      unfolding s1_def using download_video_frame by blast+
    from f have len: "length (rows s1) = length (rows s)" by (metis length_map)
    have m: "map video_url (rows s') = map video_url (rows s)" using ih f by simp
    have "rows s' ! i = rows s ! i"
      if i: "i < length (rows s)" and n: "video_url (rows s ! i) \<notin> set (map (fst \<circ> snd) (v # videos))"
      for i
    proof -
      from n v have nu: "video_url (rows s ! i) \<noteq> url"
        and nv: "video_url (rows s ! i) \<notin> set (map (fst \<circ> snd) videos)" by auto
      from g i nu have e1: "rows s1 ! i = rows s ! i" by blast
      with nv have "video_url (rows s1 ! i) \<notin> set (map (fst \<circ> snd) videos)" by simp
      with ih i len have "rows s' ! i = rows s1 ! i" by simp
      with e1 show ?thesis by simp
    qed
    with m show ?thesis by blast
  qed
qed

lemma pending_urls:
  "u \<in> set (map (fst \<circ> snd) (get_pending_videos channel s)) \<Longrightarrow>
     \<exists>r\<in>set (rows s). video_url r = u \<and> status r = ''pending''"
  by (cases "truthy channel") (auto simp: get_pending_videos_def)

text \<open>
  C2 (as amended). On a table with pairwise distinct URLs, a batch run leaves every row
  that is not pending exactly as it was, whatever the operator types and whatever the
  downloads do: it only executes jobs that are pending when it starts.
\<close>

theorem batch_keeps_terminal_rows:
  assumes d: "distinct (map video_url (rows s))"
    and r: "download_all_pending dir env use_title interactive channel skip_confirmation console s
              = (e, calls, s')"
  shows "length (rows s') = length (rows s) \<and>
         (\<forall>i<length (rows s). status (rows s ! i) \<noteq> ''pending'' \<longrightarrow> rows s' ! i = rows s ! i)"
proof -
  let ?videos = "get_pending_videos channel s"
  have nt: "video_url (rows s ! i) \<notin> set (map (fst \<circ> snd) ?videos)"
    if i: "i < length (rows s)" and st: "status (rows s ! i) \<noteq> ''pending''" for i
  proof
    assume "video_url (rows s ! i) \<in> set (map (fst \<circ> snd) ?videos)"
    from pending_urls[OF this] obtain r0 where
      r0: "r0 \<in> set (rows s)" "video_url r0 = video_url (rows s ! i)" "status r0 = ''pending''"
      by blast
    from r0(1) obtain j where j: "j < length (rows s)" "rows s ! j = r0"
      by (auto simp: in_set_conv_nth)
    with r0(2) i have eq: "map video_url (rows s) ! j = map video_url (rows s) ! i" by simp
    have lj: "j < length (map video_url (rows s))" and li: "i < length (map video_url (rows s))"
      using i j(1) by simp_all
    from nth_eq_iff_index_eq[OF d lj li] eq have "j = i" by blast
    with j(2) r0(3) st show False by simp
  qed
  consider (same) "s' = s"
    | (run) con where "process_videos dir env interactive 1 ?videos use_title con s = (e, calls, s')"
    using r unfolding download_all_pending_def Let_def
    by (auto split: if_splits list.splits)
  then show ?thesis
  proof cases
    case same
    then show ?thesis by simp
  next
    case run
    from process_videos_frame[OF run] nt
    have m: "map video_url (rows s') = map video_url (rows s)"
      and k: "\<forall>i<length (rows s). status (rows s ! i) \<noteq> ''pending'' \<longrightarrow> rows s' ! i = rows s ! i"
      by blast+
    from m have "length (rows s') = length (rows s)" by (metis length_map)
    with k show ?thesis by blast
  qed
qed

text \<open>
  C2 (as amended) on a table with a completed, a failed and a pending row.
\<close>

theorem batch_keeps_terminal_rows_witness:
  "distinct (map video_url (rows demo_mixed)) \<and>
   map status (rows demo_mixed) = [''completed'', ''failed'', ''pending''] \<and>
   map status (rows (snd (snd (download_all_pending ''downloads'' demo_env True False None True []
                                 demo_mixed))))
     = [''completed'', ''failed'', ''completed''] \<and>
   rows (snd (snd (download_all_pending ''downloads'' demo_env True False None True [] demo_mixed))) ! 0
     = rows demo_mixed ! 0 \<and>
   rows (snd (snd (download_all_pending ''downloads'' demo_env True False None True [] demo_mixed))) ! 1
     = rows demo_mixed ! 1"
proof -
  let ?r = "download_all_pending ''downloads'' demo_env True False None True [] demo_mixed"
  have d: "distinct (map video_url (rows demo_mixed))" by code_simp
  have r: "?r = (fst ?r, fst (snd ?r), snd (snd ?r))" by simp
  have a: "map status (rows (snd (snd ?r))) = [''completed'', ''failed'', ''completed'']"
    by code_simp
  have l: "length (rows demo_mixed) = 3" by code_simp
  have s0: "status (rows demo_mixed ! 0) \<noteq> ''pending''" by code_simp
  have s1: "status (rows demo_mixed ! 1) \<noteq> ''pending''" by code_simp
  from batch_keeps_terminal_rows[OF d r]
  have k: "\<forall>i<length (rows demo_mixed).
             status (rows demo_mixed ! i) \<noteq> ''pending'' \<longrightarrow> rows (snd (snd ?r)) ! i = rows demo_mixed ! i"
    by blast
  have i0: "(0::nat) < length (rows demo_mixed)" and i1: "(1::nat) < length (rows demo_mixed)"
    unfolding l by simp_all
  from k i0 s0 have r0: "rows (snd (snd ?r)) ! 0 = rows demo_mixed ! 0" by blast
  from k i1 s1 have r1: "rows (snd (snd ?r)) ! 1 = rows demo_mixed ! 1" by blast
  from d demo_mixed_status a r0 r1 show ?thesis by blast
qed

text \<open>
  C2 as stated fails: a download of the URL of a failed row that succeeds makes the row
  completed, and a download of the URL of a completed row that fails makes it failed.
\<close>

theorem terminal_status_overwritten_counterexample:
  "map status (rows demo_mixed) = [''completed'', ''failed'', ''pending''] \<and>
   map status (rows (snd (download_video ''downloads'' (InfoExit 0 ''Title B'') (DlExit 0 []) 400
          (Some ''BBBBBBBBBBB'') ''https://www.youtube.com/watch?v=BBBBBBBBBBB'' None True
          demo_mixed)))
     = [''completed'', ''completed'', ''pending''] \<and>
   map status (rows (snd (download_video ''downloads'' (InfoExit 0 ''Title A'') (DlExit 1 demo_lines)
          400 (Some ''AAAAAAAAAAA'') ''https://www.youtube.com/watch?v=AAAAAAAAAAA'' None True
          demo_mixed)))
     = [''failed'', ''failed'', ''pending'']"
  by code_simp

text \<open>
  C6. In an interactive batch of three videos the operator answers "n" for the first video
  and "y" for the other two: all three downloads are called with \<open>use_title = False\<close> and
  the files are named by content id, while the answers "y", "y", "y" give
  \<open>use_title = True\<close> for all three. The choice made for the first video decides the naming
  of the later ones.
\<close>

theorem interactive_choice_persists:
  "fst (snd (download_all_pending ''downloads'' demo_env True True None True
               [''n'', ''y'', ''y''] demo_db))
     = [(Some ''AAAAAAAAAAA'', ''https://www.youtube.com/watch?v=AAAAAAAAAAA'', None, False),
        (Some ''BBBBBBBBBBB'', ''https://www.youtube.com/watch?v=BBBBBBBBBBB'', None, False),
        (Some ''CCCCCCCCCCC'', ''https://www.youtube.com/watch?v=CCCCCCCCCCC'', None, False)] \<and>
   fst (snd (download_all_pending ''downloads'' demo_env True True None True
               [''y'', ''y'', ''y''] demo_db))
     = [(Some ''AAAAAAAAAAA'', ''https://www.youtube.com/watch?v=AAAAAAAAAAA'', None, True),
        (Some ''BBBBBBBBBBB'', ''https://www.youtube.com/watch?v=BBBBBBBBBBB'', None, True),
        (Some ''CCCCCCCCCCC'', ''https://www.youtube.com/watch?v=CCCCCCCCCCC'', None, True)] \<and>
   map download_path (rows (snd (snd (download_all_pending ''downloads'' demo_env True True None True
               [''n'', ''y'', ''y''] demo_db))))
     = [Some ''downloads/AAAAAAAAAAA.mp4'', Some ''downloads/BBBBBBBBBBB.mp4'',
        Some ''downloads/CCCCCCCCCCC.mp4'']"
  by code_simp

text \<open>
  The custom name, which the loop resets for every video, does not persist.
\<close>

lemma custom_name_does_not_persist:
  "fst (snd (download_all_pending ''downloads'' demo_env True True None True
               [''custom'', ''mine'', ''y'', ''y''] demo_db))
     = [(Some ''AAAAAAAAAAA'', ''https://www.youtube.com/watch?v=AAAAAAAAAAA'', Some ''mine'', True),
        (Some ''BBBBBBBBBBB'', ''https://www.youtube.com/watch?v=BBBBBBBBBBB'', None, True),
        (Some ''CCCCCCCCCCC'', ''https://www.youtube.com/watch?v=CCCCCCCCCCC'', None, True)]"
  by code_simp

end
